theory Spec2Isabelle
  imports Complex_Main
begin

section \<open>The data model of tracker/models.py\<close>

text \<open>
  The models of the tracker are Django ORM classes. Each model class is a record of its
  columns, each table a list of rows, and the database a record of the tables. A model
  method that reads the database takes it as an argument; a method that writes returns
  the new database. The clock (\<open>timezone.now()\<close>) is an argument \<open>now\<close>.

  A primary key is a natural number. A \<open>DateTimeField\<close> is an integer number of
  microseconds since the epoch (the resolution of Python's \<open>datetime\<close>; its range,
  years 1 to 9999, is not modelled). A foreign key column holds the primary key of the
  row it refers to. A project is referred to by its key: the methods below read none of
  its columns. The subscriber tables are left out, as no method below reads or writes
  them.
\<close>

type_synonym pk = nat
type_synonym datetime = int

text \<open>
  \<open>accounts.models.User\<close> is outside these sources. What the methods use of a user
  is Django's contract: \<open>is_authenticated\<close> is false for the anonymous user and true
  for a stored one, and two users are equal when they are the same stored row.
\<close>

datatype user = AnonymousUser | User pk

fun is_authenticated :: "user \<Rightarrow> bool" where
  "is_authenticated AnonymousUser = False"
| "is_authenticated (User _) = True"

datatype error = ObjectDoesNotExist | MultipleObjectsReturned | IntegrityError
  | ZeroDivisionError



record label =
  label_pk :: pk
  label_project :: pk
  label_name :: string
  label_deleted :: bool
  label_color :: string
  label_inverted :: bool

record milestone =
  milestone_pk :: pk
  milestone_project :: pk
  milestone_name :: string
  milestone_due_date :: "datetime option"
  milestone_closed :: bool
  milestone_deleted :: bool

text \<open>
  \<open>Issue.primarykey\<close> is the storage key; \<open>Issue.id\<close> is the number of the issue
  in its project. The many-to-many field \<open>Issue.labels\<close> is the table
  \<open>issue_labels\<close> of pairs (issue key, label key) of the database below.
\<close>

record issue =
  primarykey :: pk
  issue_project :: pk
  issue_id :: int
  issue_title :: string
  issue_author :: pk
  issue_opened_at :: datetime
  issue_due_date :: "datetime option"
  issue_closed :: bool
  issue_milestone :: "pk option"
  issue_assignee :: "pk option"

record readstate =
  readstate_pk :: pk
  readstate_issue :: pk
  readstate_user :: pk
  lastread :: datetime

text \<open>
  \<open>Event.args\<close> is a dictionary, kept in the text column \<open>_args\<close> as JSON
  (\<open>setargs\<close> dumps it, \<open>getargs\<close> loads it). The model keeps the dictionary: a
  list of keys and values, in the order they were written.
\<close>

datatype jval = JInt int | JStr string

record event =
  event_pk :: pk
  event_issue :: pk
  event_date :: datetime
  event_author :: pk
  event_code :: int
  event_args :: "(string \<times> jval) list"
  additionnal_section :: string

abbreviation (input) UNKNOW :: int where "UNKNOW \<equiv> 0"
abbreviation (input) REOPEN :: int where "REOPEN \<equiv> 2"
abbreviation (input) RENAME :: int where "RENAME \<equiv> 3"
abbreviation (input) ADD_LABEL :: int where "ADD_LABEL \<equiv> 4"
abbreviation (input) DEL_LABEL :: int where "DEL_LABEL \<equiv> 5"
abbreviation (input) SET_MILESTONE :: int where "SET_MILESTONE \<equiv> 6"
abbreviation (input) CHANGE_MILESTONE :: int where "CHANGE_MILESTONE \<equiv> 7"
abbreviation (input) UNSET_MILESTONE :: int where "UNSET_MILESTONE \<equiv> 8"
abbreviation (input) REFERENCE :: int where "REFERENCE \<equiv> 9"
abbreviation (input) COMMENT :: int where "COMMENT \<equiv> 10"
abbreviation (input) DESCRIBE :: int where "DESCRIBE \<equiv> 11"
abbreviation (input) ASSIGN :: int where "ASSIGN \<equiv> 12"
abbreviation (input) UNASSIGN :: int where "UNASSIGN \<equiv> 13"
abbreviation (input) SET_DUE_DATE :: int where "SET_DUE_DATE \<equiv> 14"
abbreviation (input) CHANGE_DUE_DATE :: int where "CHANGE_DUE_DATE \<equiv> 15"
abbreviation (input) UNSET_DUE_DATE :: int where "UNSET_DUE_DATE \<equiv> 16"

record db =
  issues :: "issue list"
  events :: "event list"
  readstates :: "readstate list"
  labels :: "label list"
  milestones :: "milestone list"
  issue_labels :: "(pk \<times> pk) list"

section \<open>The ORM operations the methods call\<close>

text \<open>
  None of the models with a \<open>first()\<close> or \<open>last()\<close> call has a \<open>Meta.ordering\<close>,
  so the query set is ordered by primary key: \<open>first()\<close> is the row with the least key,
  \<open>last()\<close> the first row of the reversed ordering.
\<close>

definition order_by_pk :: "('a \<Rightarrow> pk) \<Rightarrow> 'a list \<Rightarrow> 'a list" where
  "order_by_pk pkf rows = sort_key pkf rows"

definition qs_first :: "('a \<Rightarrow> pk) \<Rightarrow> 'a list \<Rightarrow> 'a option" where
  "qs_first pkf rows = (case order_by_pk pkf rows of [] \<Rightarrow> None | r # _ \<Rightarrow> Some r)"

definition qs_last :: "('a \<Rightarrow> pk) \<Rightarrow> 'a list \<Rightarrow> 'a option" where
  "qs_last pkf rows = (case rev (order_by_pk pkf rows) of [] \<Rightarrow> None | r # _ \<Rightarrow> Some r)"

text \<open>\<open>get()\<close> returns the only row of the query set and raises otherwise.\<close>

fun qs_get :: "'a list \<Rightarrow> error + 'a" where
  "qs_get [] = Inl ObjectDoesNotExist"
| "qs_get [r] = Inr r"
| "qs_get (_ # _ # _) = Inl MultipleObjectsReturned"

text \<open>
  \<open>save()\<close> of an instance that has a key updates the row of that key and inserts the
  instance when no row has it; \<open>save()\<close> of a new instance inserts it under the next
  key of the table's sequence, which is above every key of the table.
\<close>

definition save_row :: "('a \<Rightarrow> pk) \<Rightarrow> 'a \<Rightarrow> 'a list \<Rightarrow> 'a list" where
  "save_row pkf r rows =
     (if \<exists>x \<in> set rows. pkf x = pkf r
      then map (\<lambda>x. if pkf x = pkf r then r else x) rows
      else rows @ [r])"

definition fresh_pk :: "('a \<Rightarrow> pk) \<Rightarrow> 'a list \<Rightarrow> pk" where
  "fresh_pk pkf rows = Suc (foldr (\<lambda>r m. max (pkf r) m) rows 0)"

definition delete_row :: "('a \<Rightarrow> pk) \<Rightarrow> 'a \<Rightarrow> 'a list \<Rightarrow> 'a list" where
  "delete_row pkf r rows = filter (\<lambda>x. pkf x \<noteq> pkf r) rows"

section \<open>Issue numbering\<close>

definition Project_issues :: "db \<Rightarrow> pk \<Rightarrow> issue list" where
  "Project_issues d p = filter (\<lambda>i. issue_project i = p) (issues d)"

definition Issue_next_id :: "db \<Rightarrow> pk \<Rightarrow> int" where
  "Issue_next_id d p =
     (case qs_last primarykey (Project_issues d p) of
        Some last_issue \<Rightarrow> issue_id last_issue + 1
      | None \<Rightarrow> 1)"

text \<open>
  Modelled from the spec: the view that creates an issue is not in these sources. The
  spec says an issue "has a project-scoped sequential id (distinct from its storage key)
  assigned by taking the previous issue's id + 1": the new instance gets
  \<open>Issue.next_id(project)\<close> as its id and is saved as a new row. \<open>Issue.Meta\<close>
  declares \<open>unique_together = ['project', 'id']\<close>, so the insert is refused with an
  \<open>IntegrityError\<close> when the project already has an issue of that id.
\<close>

definition Issue_create :: "db \<Rightarrow> issue \<Rightarrow> error + db" where
  "Issue_create d new =
     (let i = new\<lparr>primarykey := fresh_pk primarykey (issues d),
                  issue_id := Issue_next_id d (issue_project new)\<rparr>
      in if \<exists>j \<in> set (issues d). issue_project j = issue_project i \<and> issue_id j = issue_id i
         then Inl IntegrityError
         else Inr (d\<lparr>issues := issues d @ [i]\<rparr>))"

text \<open>
  The database states reached by creating issues: the issue table starts empty, an issue
  is added by \<open>Issue_create\<close>, and the other tables change freely.
\<close>

inductive reachable :: "db \<Rightarrow> bool" where
  init: "issues d = [] \<Longrightarrow> reachable d"
| create: "reachable d \<Longrightarrow> Issue_create d new = Inr d' \<Longrightarrow> reachable d'"
| other: "reachable d \<Longrightarrow> issues d' = issues d \<Longrightarrow> reachable d'"

definition ids_follow_keys :: "issue list \<Rightarrow> bool" where
  "ids_follow_keys xs =
     (\<forall>i \<in> set xs. \<forall>j \<in> set xs.
        issue_project i = issue_project j \<and> primarykey i \<le> primarykey j \<longrightarrow> issue_id i \<le> issue_id j)"

text \<open>The pairs (project, id) of the issue table, which \<open>unique_together\<close> is about.\<close>

definition project_ids :: "issue list \<Rightarrow> (pk \<times> int) list" where
  "project_ids xs = map (\<lambda>i. (issue_project i, issue_id i)) xs"

section \<open>Events and the description of an issue\<close>

definition Issue_events :: "db \<Rightarrow> issue \<Rightarrow> event list" where
  "Issue_events d self = filter (\<lambda>e. event_issue e = primarykey self) (events d)"

text \<open>
  \<open>Event(issue=..., author=..., code=..., args=..., additionnal_section=...).save()\<close>:
  a new row under the next key; \<open>date\<close> has \<open>auto_now_add\<close>, so it is the time
  of the insert. \<open>args\<close> defaults to the empty dictionary and
  \<open>additionnal_section\<close> to the empty string.
\<close>

definition Event_insert ::
  "datetime \<Rightarrow> db \<Rightarrow> pk \<Rightarrow> pk \<Rightarrow> int \<Rightarrow> (string \<times> jval) list \<Rightarrow> string \<Rightarrow> db" where
  "Event_insert now d iss auth c a body =
     d\<lparr>events := events d @
        [\<lparr>event_pk = fresh_pk event_pk (events d), event_issue = iss, event_date = now,
          event_author = auth, event_code = c, event_args = a, additionnal_section = body\<rparr>]\<rparr>"

definition Issue_getdescevent :: "db \<Rightarrow> issue \<Rightarrow> event option" where
  "Issue_getdescevent d self =
     (let desc = filter (\<lambda>e. event_code e = DESCRIBE) (Issue_events d self)
      in if desc \<noteq> [] then qs_first event_pk desc else None)"

definition Issue_getdesc :: "db \<Rightarrow> issue \<Rightarrow> string option" where
  "Issue_getdesc d self =
     (case Issue_getdescevent d self of
        Some desc \<Rightarrow> Some (additionnal_section desc)
      | None \<Rightarrow> None)"

definition Issue_setdesc :: "datetime \<Rightarrow> db \<Rightarrow> issue \<Rightarrow> string \<Rightarrow> db" where
  "Issue_setdesc now d self val =
     (case Issue_getdescevent d self of
        Some desc \<Rightarrow>
          d\<lparr>events := save_row event_pk (desc\<lparr>additionnal_section := val\<rparr>) (events d)\<rparr>
      | None \<Rightarrow> Event_insert now d (primarykey self) (issue_author self) DESCRIBE [] val)"

definition Issue_deldesc :: "db \<Rightarrow> issue \<Rightarrow> db" where
  "Issue_deldesc d self =
     (case Issue_getdescevent d self of
        Some desc \<Rightarrow> d\<lparr>events := delete_row event_pk desc (events d)\<rparr>
      | None \<Rightarrow> d)"

section \<open>Labels and milestones of an issue\<close>

text \<open>
  \<open>self.labels\<close> is the join of the label table with the rows of \<open>issue_labels\<close>
  of this issue. \<open>self.labels.add(label)\<close> inserts the pair unless it is there;
  \<open>self.labels.remove(label)\<close> deletes it. \<open>self.save()\<close> writes the instance
  \<open>self\<close> over its row. The \<open>author\<close> of the new event is a stored user, given by
  key.
\<close>

definition Issue_labels :: "db \<Rightarrow> issue \<Rightarrow> label list" where
  "Issue_labels d self =
     filter (\<lambda>l. (primarykey self, label_pk l) \<in> set (issue_labels d)) (labels d)"

definition Issue_save :: "db \<Rightarrow> issue \<Rightarrow> db" where
  "Issue_save d self = d\<lparr>issues := save_row primarykey self (issues d)\<rparr>"

definition labels_add :: "db \<Rightarrow> issue \<Rightarrow> label \<Rightarrow> db" where
  "labels_add d self l =
     (if (primarykey self, label_pk l) \<in> set (issue_labels d) then d
      else d\<lparr>issue_labels := issue_labels d @ [(primarykey self, label_pk l)]\<rparr>)"

definition labels_remove :: "db \<Rightarrow> issue \<Rightarrow> label \<Rightarrow> db" where
  "labels_remove d self l =
     d\<lparr>issue_labels := filter (\<lambda>r. r \<noteq> (primarykey self, label_pk l)) (issue_labels d)\<rparr>"

definition Issue_add_label :: "datetime \<Rightarrow> db \<Rightarrow> issue \<Rightarrow> pk \<Rightarrow> label \<Rightarrow> bool \<Rightarrow> db" where
  "Issue_add_label now d self author l commit =
     (if filter (\<lambda>x. label_pk x = label_pk l) (Issue_labels d self) \<noteq> [] then d
      else
        let d1 = labels_add d self l;
            d2 = (if commit then Issue_save d1 self else d1)
        in Event_insert now d2 (primarykey self) author ADD_LABEL
             [(''label'', JInt (int (label_pk l)))] [])"

definition Issue_remove_label :: "datetime \<Rightarrow> db \<Rightarrow> issue \<Rightarrow> pk \<Rightarrow> label \<Rightarrow> bool \<Rightarrow> db" where
  "Issue_remove_label now d self author l commit =
     (let d1 = labels_remove d self l;
          d2 = (if commit then Issue_save d1 self else d1)
      in Event_insert now d2 (primarykey self) author DEL_LABEL
           [(''label'', JInt (int (label_pk l)))] [])"

text \<open>
  \<open>self.milestone\<close> follows the foreign key: \<open>None\<close> when the column is null, and
  otherwise the milestone row of that key. The methods assign to \<open>self.milestone\<close>, so
  they return the instance with the database.
\<close>

definition Issue_milestone_row :: "db \<Rightarrow> issue \<Rightarrow> error + milestone option" where
  "Issue_milestone_row d self =
     (case issue_milestone self of
        None \<Rightarrow> Inr None
      | Some k \<Rightarrow>
          (case qs_get (filter (\<lambda>m. milestone_pk m = k) (milestones d)) of
             Inl err \<Rightarrow> Inl err
           | Inr m \<Rightarrow> Inr (Some m)))"

definition Issue_add_milestone ::
  "datetime \<Rightarrow> db \<Rightarrow> issue \<Rightarrow> pk \<Rightarrow> milestone \<Rightarrow> bool \<Rightarrow> error + issue \<times> db" where
  "Issue_add_milestone now d self author m commit =
     (case Issue_milestone_row d self of
        Inl err \<Rightarrow> Inl err
      | Inr cur \<Rightarrow>
          if (case cur of Some old \<Rightarrow> milestone_pk old = milestone_pk m | None \<Rightarrow> False)
          then Inr (self, d)
          else
            let d1 = (case cur of
                        Some old \<Rightarrow>
                          Event_insert now d (primarykey self) author CHANGE_MILESTONE
                            [(''old_milestone'', JStr (milestone_name old)),
                             (''new_milestone'', JStr (milestone_name m))] []
                      | None \<Rightarrow>
                          Event_insert now d (primarykey self) author SET_MILESTONE
                            [(''milestone'', JStr (milestone_name m))] []);
                self' = self\<lparr>issue_milestone := Some (milestone_pk m)\<rparr>
            in Inr (self', if commit then Issue_save d1 self' else d1))"

definition Issue_remove_milestone ::
  "datetime \<Rightarrow> db \<Rightarrow> issue \<Rightarrow> pk \<Rightarrow> milestone \<Rightarrow> bool \<Rightarrow> issue \<times> db" where
  "Issue_remove_milestone now d self author m commit =
     (let self' = self\<lparr>issue_milestone := None\<rparr>;
          d1 = (if commit then Issue_save d self' else d)
      in (self', Event_insert now d1 (primarykey self) author UNSET_MILESTONE
                   [(''milestone'', JStr (milestone_name m))] []))"

text \<open>The label is among \<open>self.labels\<close>.\<close>

definition attached :: "db \<Rightarrow> issue \<Rightarrow> label \<Rightarrow> bool" where
  "attached d self l = (\<exists>x \<in> set (Issue_labels d self). label_pk x = label_pk l)"

section \<open>Read states\<close>

definition Issue_readstates :: "db \<Rightarrow> issue \<Rightarrow> readstate list" where
  "Issue_readstates d self = filter (\<lambda>r. readstate_issue r = primarykey self) (readstates d)"

text \<open>\<open>self.readstates.get(user=user)\<close>\<close>

definition readstates_get :: "db \<Rightarrow> issue \<Rightarrow> user \<Rightarrow> error + readstate" where
  "readstates_get d self u =
     qs_get (filter (\<lambda>r. User (readstate_user r) = u) (Issue_readstates d self))"

definition Issue_have_unread_message :: "db \<Rightarrow> issue \<Rightarrow> user \<Rightarrow> error + bool" where
  "Issue_have_unread_message d self u =
     (if \<not> is_authenticated u then Inr False
      else case readstates_get d self u of
             Inl ObjectDoesNotExist \<Rightarrow> Inr True
           | Inl err \<Rightarrow> Inl err
           | Inr rs \<Rightarrow> Inr (filter (\<lambda>e. lastread rs < event_date e) (Issue_events d self) \<noteq> []))"

definition Issue_get_unread_event_nb :: "db \<Rightarrow> issue \<Rightarrow> user \<Rightarrow> error + int" where
  "Issue_get_unread_event_nb d self u =
     (if \<not> is_authenticated u then Inr 0
      else case readstates_get d self u of
             Inl ObjectDoesNotExist \<Rightarrow> Inr (int (length (Issue_events d self)))
           | Inl err \<Rightarrow> Inl err
           | Inr rs \<Rightarrow>
               Inr (int (length (filter (\<lambda>e. lastread rs < event_date e) (Issue_events d self)))))"

fun Issue_mark_as_read :: "datetime \<Rightarrow> db \<Rightarrow> issue \<Rightarrow> user \<Rightarrow> error + datetime \<times> db" where
  "Issue_mark_as_read now d self AnonymousUser = Inr (now, d)"
| "Issue_mark_as_read now d self (User uid) =
     (case readstates_get d self (User uid) of
        Inr rs \<Rightarrow>
          Inr (lastread rs,
               d\<lparr>readstates := save_row readstate_pk (rs\<lparr>lastread := now\<rparr>) (readstates d)\<rparr>)
      | Inl ObjectDoesNotExist \<Rightarrow>
          Inr (issue_opened_at self,
               d\<lparr>readstates := readstates d @
                  [\<lparr>readstate_pk = fresh_pk readstate_pk (readstates d),
                    readstate_issue = primarykey self, readstate_user = uid,
                    lastread = now\<rparr>]\<rparr>)
      | Inl err \<Rightarrow> Inl err)"

text \<open>The loop of \<open>Project.get_unread_issues_nb\<close> over \<open>self.issues.all()\<close>.\<close>

fun count_unread :: "db \<Rightarrow> user \<Rightarrow> issue list \<Rightarrow> int \<Rightarrow> error + int" where
  "count_unread d u [] count = Inr count"
| "count_unread d u (i # rest) count =
     (case Issue_have_unread_message d i u of
        Inl err \<Rightarrow> Inl err
      | Inr unread \<Rightarrow> count_unread d u rest (if unread then count + 1 else count))"

definition Project_get_unread_issues_nb :: "db \<Rightarrow> pk \<Rightarrow> user \<Rightarrow> error + int" where
  "Project_get_unread_issues_nb d p u =
     (if \<not> is_authenticated u then Inr 0
      else count_unread d u (Project_issues d p) 0)"

section \<open>Labels and milestones of a project\<close>

definition Project_labels :: "db \<Rightarrow> pk \<Rightarrow> label list" where
  "Project_labels d p = filter (\<lambda>l. label_project l = p \<and> label_deleted l = False) (labels d)"

definition Project_milestones :: "db \<Rightarrow> pk \<Rightarrow> milestone list" where
  "Project_milestones d p =
     filter (\<lambda>m. milestone_project m = p \<and> milestone_deleted m = False) (milestones d)"

text \<open>\<open>save()\<close> of a label or milestone instance, as the models inherit it.\<close>

definition Label_save :: "db \<Rightarrow> label \<Rightarrow> db" where
  "Label_save d l = d\<lparr>labels := save_row label_pk l (labels d)\<rparr>"

definition Milestone_save :: "db \<Rightarrow> milestone \<Rightarrow> db" where
  "Milestone_save d m = d\<lparr>milestones := save_row milestone_pk m (milestones d)\<rparr>"

section \<open>Progress of a milestone\<close>

definition Milestone_issues :: "db \<Rightarrow> milestone \<Rightarrow> issue list" where
  "Milestone_issues d m = filter (\<lambda>i. issue_milestone i = Some (milestone_pk m)) (issues d)"

definition Milestone_closed_issues :: "db \<Rightarrow> milestone \<Rightarrow> int" where
  "Milestone_closed_issues d m =
     int (length (filter (\<lambda>i. issue_closed i = True) (Milestone_issues d m)))"

definition Milestone_total_issues :: "db \<Rightarrow> milestone \<Rightarrow> int" where
  "Milestone_total_issues d m = int (length (Milestone_issues d m))"

text \<open>
  \<open>100 * closed / total\<close> is Python 3's true division of two integers: the quotient
  as a real number, rounded to the nearest binary64. The rounding is the argument
  \<open>rnd\<close>; \<open>binary64_rounding\<close> states what the proofs use of it, each a property
  of rounding to nearest: it is monotone, it keeps the integers from 0 to 100, and on
  the reals from 1 / 2^32 to 128 its relative error is at most 1 / 2^53.
  Dividing by zero raises \<open>ZeroDivisionError\<close>. \<open>int()\<close> of a float truncates
  towards zero.
\<close>

definition binary64_rounding :: "(real \<Rightarrow> real) \<Rightarrow> bool" where
  "binary64_rounding rnd =
     ((\<forall>x y. x \<le> y \<longrightarrow> rnd x \<le> rnd y) \<and>
      (\<forall>n::int. 0 \<le> n \<and> n \<le> 100 \<longrightarrow> rnd (real_of_int n) = real_of_int n) \<and>
      (\<forall>x. 1 / 2 ^ 32 \<le> x \<and> x \<le> 128 \<longrightarrow> \<bar>rnd x - x\<bar> \<le> x / 2 ^ 53))"

definition py_int :: "real \<Rightarrow> int" where
  "py_int x = (if 0 \<le> x then \<lfloor>x\<rfloor> else \<lceil>x\<rceil>)"

definition py_truediv :: "(real \<Rightarrow> real) \<Rightarrow> int \<Rightarrow> int \<Rightarrow> error + real" where
  "py_truediv rnd a b =
     (if b = 0 then Inl ZeroDivisionError
      else Inr (rnd (real_of_int a / real_of_int b)))"

definition Milestone_progress :: "(real \<Rightarrow> real) \<Rightarrow> db \<Rightarrow> milestone \<Rightarrow> error + int" where
  "Milestone_progress rnd d m =
     (let closed = Milestone_closed_issues d m;
          total = Milestone_total_issues d m
      in if total \<noteq> 0
         then (case py_truediv rnd (100 * closed) total of
                 Inl err \<Rightarrow> Inl err
               | Inr q \<Rightarrow> Inr (py_int q))
         else Inr 0)"

section \<open>Who may edit an event\<close>





section \<open>Example databases\<close>

definition empty_db :: db where
  "empty_db = \<lparr>issues = [], events = [], readstates = [], labels = [], milestones = [],
               issue_labels = []\<rparr>"

definition new_issue :: "pk \<Rightarrow> issue" where
  "new_issue p = \<lparr>primarykey = 0, issue_project = p, issue_id = 0, issue_title = ''t'',
     issue_author = 1, issue_opened_at = 0, issue_due_date = None, issue_closed = False,
     issue_milestone = None, issue_assignee = None\<rparr>"

text \<open>Two issues of project 1.\<close>

definition two_issues :: db where
  "two_issues = empty_db\<lparr>issues :=
     [(new_issue 1)\<lparr>primarykey := 1, issue_id := 1\<rparr>,
      (new_issue 1)\<lparr>primarykey := 2, issue_id := 2\<rparr>]\<rparr>"

text \<open>The first issue of project 1 and the first issue of project 2.\<close>

definition one_each :: db where
  "one_each = empty_db\<lparr>issues :=
     [(new_issue 1)\<lparr>primarykey := 1, issue_id := 1\<rparr>,
      (new_issue 2)\<lparr>primarykey := 2, issue_id := 1\<rparr>]\<rparr>"

text \<open>
  Two issues of project 1 with three events; user 7 has read issue 1 at time 15, between
  its two events.
\<close>

definition new_event :: "pk \<Rightarrow> pk \<Rightarrow> datetime \<Rightarrow> int \<Rightarrow> string \<Rightarrow> event" where
  "new_event k iss t c body = \<lparr>event_pk = k, event_issue = iss, event_date = t,
     event_author = 7, event_code = c, event_args = [], additionnal_section = body\<rparr>"

definition read_db :: db where
  "read_db = empty_db\<lparr>
     issues := [(new_issue 1)\<lparr>primarykey := 1, issue_id := 1\<rparr>,
                (new_issue 1)\<lparr>primarykey := 2, issue_id := 2\<rparr>],
     events := [new_event 1 1 10 DESCRIBE ''text'', new_event 2 1 20 COMMENT ''reply'',
                new_event 3 2 30 DESCRIBE ''other''],
     readstates := [\<lparr>readstate_pk = 1, readstate_issue = 1, readstate_user = 7, lastread = 15\<rparr>]\<rparr>"

definition issue_one :: issue where
  "issue_one = (new_issue 1)\<lparr>primarykey := 1, issue_id := 1\<rparr>"

text \<open>Issue 1 with a comment and no description.\<close>

definition comment_db :: db where
  "comment_db = empty_db\<lparr>
     issues := [issue_one],
     events := [new_event 1 1 10 COMMENT ''first'']\<rparr>"

definition milestone_one :: milestone where
  "milestone_one = \<lparr>milestone_pk = 1, milestone_project = 1, milestone_name = ''v1'',
     milestone_due_date = None, milestone_closed = False, milestone_deleted = False\<rparr>"

definition label_one :: label where
  "label_one = \<lparr>label_pk = 1, label_project = 1, label_name = ''bug'', label_deleted = False,
     label_color = ''#000000'', label_inverted = True\<rparr>"

text \<open>Two labels of project 1; issue 1 carries the first.\<close>

definition label_two :: label where
  "label_two = label_one\<lparr>label_pk := 2, label_name := ''feature''\<rparr>"

definition label_db :: db where
  "label_db = read_db\<lparr>labels := [label_one, label_two], issue_labels := [(1, 1)]\<rparr>"

text \<open>
  The labelled database with a milestone and two more events of issue 1: one that added
  label 1, one that set milestone \<open>v1\<close>.
\<close>

definition soft_db :: db where
  "soft_db = label_db\<lparr>
     events := events label_db @
       [(new_event 4 1 40 ADD_LABEL [])\<lparr>event_args := [(''label'', JInt 1)]\<rparr>,
        (new_event 5 1 45 SET_MILESTONE [])\<lparr>event_args := [(''milestone'', JStr ''v1'')]\<rparr>],
     milestones := [milestone_one]\<rparr>"



text \<open>
  Three issues on milestone 1, one of them closed; a closed issue without milestone; two
  closed issues on milestone 2; no issue on milestone 3.
\<close>

definition milestone_two :: milestone where
  "milestone_two = milestone_one\<lparr>milestone_pk := 2, milestone_name := ''v2''\<rparr>"

definition milestone_three :: milestone where
  "milestone_three = milestone_one\<lparr>milestone_pk := 3, milestone_name := ''v3''\<rparr>"

definition progress_db :: db where
  "progress_db = empty_db\<lparr>issues :=
     [(new_issue 1)\<lparr>primarykey := 1, issue_id := 1, issue_milestone := Some 1,
        issue_closed := True\<rparr>,
      (new_issue 1)\<lparr>primarykey := 2, issue_id := 2, issue_milestone := Some 1\<rparr>,
      (new_issue 1)\<lparr>primarykey := 3, issue_id := 3, issue_milestone := Some 1\<rparr>,
      (new_issue 1)\<lparr>primarykey := 4, issue_id := 4, issue_closed := True\<rparr>,
      (new_issue 1)\<lparr>primarykey := 5, issue_id := 5, issue_milestone := Some 2,
        issue_closed := True\<rparr>,
      (new_issue 1)\<lparr>primarykey := 6, issue_id := 6, issue_milestone := Some 2,
        issue_closed := True\<rparr>],
     milestones := [milestone_one, milestone_two, milestone_three]\<rparr>"

section \<open>Facts about the ORM operations\<close>

lemma qs_first_None: "qs_first pkf rows = None \<longleftrightarrow> rows = []"
proof -
  have "sort_key pkf rows = [] \<longleftrightarrow> rows = []"
    by (metis set_sort set_empty)
  then show ?thesis
    by (cases "sort_key pkf rows") (auto simp: qs_first_def order_by_pk_def)
qed

lemma qs_first_Some:
  assumes "qs_first pkf rows = Some r"
  shows "r \<in> set rows" and "\<forall>x \<in> set rows. pkf r \<le> pkf x"
proof -
  from assms obtain ys where s: "sort_key pkf rows = r # ys"
    by (auto simp: qs_first_def order_by_pk_def split: list.splits)
  have eq: "set rows = set (r # ys)"
    using s set_sort [of pkf rows] by simp
  then show "r \<in> set rows" by simp
  have "sorted (map pkf (r # ys))"
    using s sorted_sort_key [of pkf rows] by simp
  then have "\<forall>x \<in> set (r # ys). pkf r \<le> pkf x" by auto
  then show "\<forall>x \<in> set rows. pkf r \<le> pkf x"
    unfolding eq .
qed

lemma qs_last_None: "qs_last pkf rows = None \<longleftrightarrow> rows = []"
proof -
  have "sort_key pkf rows = [] \<longleftrightarrow> rows = []"
    by (metis set_sort set_empty)
  then show ?thesis
    by (cases "rev (sort_key pkf rows)") (auto simp: qs_last_def order_by_pk_def)
qed

lemma qs_last_Some:
  assumes "qs_last pkf rows = Some r"
  shows "r \<in> set rows" and "\<forall>x \<in> set rows. pkf x \<le> pkf r"
proof -
  from assms obtain ys where "rev (sort_key pkf rows) = r # ys"
    by (auto simp: qs_last_def order_by_pk_def split: list.splits)
  then have s: "sort_key pkf rows = rev ys @ [r]"
    by (metis rev_rev_ident rev.simps(2))
  have eq: "set rows = set (rev ys @ [r])"
    using s set_sort [of pkf rows] by simp
  then show "r \<in> set rows" by simp
  have "sorted (map pkf (rev ys @ [r]))"
    using s sorted_sort_key [of pkf rows] by simp
  then have "\<forall>x \<in> set (rev ys @ [r]). pkf x \<le> pkf r"
    by (auto simp: sorted_append)
  then show "\<forall>x \<in> set rows. pkf x \<le> pkf r"
    unfolding eq .
qed

lemma fresh_pk_above: "x \<in> set rows \<Longrightarrow> pkf x < fresh_pk pkf rows"
  unfolding fresh_pk_def by (induction rows) auto

section \<open>Claims about issue numbering\<close>

lemma next_id_above:
  assumes "ids_follow_keys (issues d)" and "j \<in> set (issues d)" and "issue_project j = p"
  shows "issue_id j < Issue_next_id d p"
proof -
  from assms have "j \<in> set (Project_issues d p)"
    by (simp add: Project_issues_def)
  then have "qs_last primarykey (Project_issues d p) \<noteq> None"
    by (auto simp: qs_last_None)
  then obtain l where l: "qs_last primarykey (Project_issues d p) = Some l" by auto
  have "l \<in> set (Project_issues d p)" and "primarykey j \<le> primarykey l"
    using qs_last_Some [OF l] \<open>j \<in> set (Project_issues d p)\<close> by auto
  then have "issue_id j \<le> issue_id l"
    using assms by (auto simp: ids_follow_keys_def Project_issues_def)
  then show ?thesis
    using l by (simp add: Issue_next_id_def)
qed

text \<open>
  C2. \<open>Issue.next_id(project)\<close> returns 1 when the project has no issue. Otherwise
  it returns the id of the project's last issue plus one, the last issue being the one
  \<open>last()\<close> returns: an issue of the project whose storage key no issue of the
  project exceeds.
\<close>

theorem next_id_last_plus_one:
  "((\<forall>i \<in> set (issues d). issue_project i \<noteq> p) \<longrightarrow> Issue_next_id d p = 1) \<and>
   ((\<exists>i \<in> set (issues d). issue_project i = p) \<longrightarrow>
      (\<exists>l \<in> set (issues d). issue_project l = p \<and>
         (\<forall>j \<in> set (issues d). issue_project j = p \<longrightarrow> primarykey j \<le> primarykey l) \<and>
         Issue_next_id d p = issue_id l + 1))"
proof (intro conjI impI)
  assume "\<forall>i \<in> set (issues d). issue_project i \<noteq> p"
  then have "Project_issues d p = []"
    by (auto simp: Project_issues_def filter_empty_conv)
  then have "qs_last primarykey (Project_issues d p) = None"
    by (simp add: qs_last_None)
  then show "Issue_next_id d p = 1"
    by (simp add: Issue_next_id_def)
next
  assume "\<exists>i \<in> set (issues d). issue_project i = p"
  then have "Project_issues d p \<noteq> []"
    by (auto simp: Project_issues_def filter_empty_conv)
  then obtain l where l: "qs_last primarykey (Project_issues d p) = Some l"
    using qs_last_None [of primarykey "Project_issues d p"] by auto
  have in_p: "l \<in> set (Project_issues d p)"
    and top: "\<forall>x \<in> set (Project_issues d p). primarykey x \<le> primarykey l"
    using qs_last_Some [OF l] by auto
  have "Issue_next_id d p = issue_id l + 1"
    using l by (simp add: Issue_next_id_def)
  with in_p top show "\<exists>l \<in> set (issues d). issue_project l = p \<and>
         (\<forall>j \<in> set (issues d). issue_project j = p \<longrightarrow> primarykey j \<le> primarykey l) \<and>
         Issue_next_id d p = issue_id l + 1"
    by (auto simp: Project_issues_def)
qed

theorem next_id_last_plus_one_witness:
  "Issue_next_id two_issues 2 = 1 \<and> Issue_next_id two_issues 1 = 3"
proof -
  have a: "\<forall>i \<in> set (issues two_issues). issue_project i \<noteq> 2"
    by (simp add: two_issues_def empty_db_def new_issue_def)
  have b: "\<exists>i \<in> set (issues two_issues). issue_project i = 1"
    by (simp add: two_issues_def empty_db_def new_issue_def)
  from next_id_last_plus_one [of two_issues 2] a have "Issue_next_id two_issues 2 = 1" by blast
  moreover
  from next_id_last_plus_one [of two_issues 1] b
  obtain l where "l \<in> set (issues two_issues)"
    "\<forall>j \<in> set (issues two_issues). issue_project j = 1 \<longrightarrow> primarykey j \<le> primarykey l"
    "Issue_next_id two_issues 1 = issue_id l + 1" by blast
  then have "Issue_next_id two_issues 1 = 3"
    by (auto simp: two_issues_def empty_db_def new_issue_def)
  ultimately show ?thesis by simp
qed

lemma create_keeps:
  assumes inv: "ids_follow_keys (issues d)" "distinct (project_ids (issues d))"
  shows "\<exists>d'. Issue_create d new = Inr d' \<and> ids_follow_keys (issues d') \<and>
    distinct (project_ids (issues d'))"
proof -
  let ?p = "issue_project new"
  let ?i = "new\<lparr>primarykey := fresh_pk primarykey (issues d), issue_id := Issue_next_id d ?p\<rparr>"
  have above: "\<forall>j \<in> set (issues d). issue_project j = ?p \<longrightarrow> issue_id j < Issue_next_id d ?p"
    using next_id_above [OF inv(1)] by blast
  have fresh: "\<forall>j \<in> set (issues d). primarykey j < fresh_pk primarykey (issues d)"
    by (simp add: fresh_pk_above)
  have ok: "\<not> (\<exists>j \<in> set (issues d). issue_project j = issue_project ?i \<and> issue_id j = issue_id ?i)"
    using above by auto
  then have eq: "Issue_create d new = Inr (d\<lparr>issues := issues d @ [?i]\<rparr>)"
    by (simp add: Issue_create_def Let_def)
  have "ids_follow_keys (issues d @ [?i])"
    using inv(1) above fresh unfolding ids_follow_keys_def
    by (auto simp: less_imp_le dest: leD)
  moreover have "distinct (project_ids (issues d @ [?i]))"
    using inv(2) above by (auto simp: project_ids_def)
  ultimately show ?thesis using eq by simp
qed

lemma reachable_inv:
  "reachable d \<Longrightarrow> ids_follow_keys (issues d) \<and> distinct (project_ids (issues d))"
proof (induction rule: reachable.induct)
  case (init d)
  then show ?case by (simp add: ids_follow_keys_def project_ids_def)
next
  case (create d new d')
  then show ?case using create_keeps [of d new] by auto
next
  case (other d d')
  then show ?case by simp
qed

lemma reachable_one_each: "reachable one_each"
proof -
  have r0: "reachable empty_db"
    by (rule reachable.init) (simp add: empty_db_def)
  have c1: "Issue_create empty_db (new_issue 1) =
      Inr (empty_db\<lparr>issues := [(new_issue 1)\<lparr>primarykey := 1, issue_id := 1\<rparr>]\<rparr>)"
    by (simp add: Issue_create_def Issue_next_id_def Project_issues_def qs_last_def
        order_by_pk_def fresh_pk_def empty_db_def new_issue_def)
  have c2: "Issue_create (empty_db\<lparr>issues := [(new_issue 1)\<lparr>primarykey := 1, issue_id := 1\<rparr>]\<rparr>)
      (new_issue 2) = Inr one_each"
    by (simp add: Issue_create_def Issue_next_id_def Project_issues_def qs_last_def
        order_by_pk_def fresh_pk_def empty_db_def new_issue_def one_each_def)
  show ?thesis
    using reachable.create [OF reachable.create [OF r0 c1] c2] .
qed

text \<open>
  C7. In every database state reached by creating issues with \<open>Issue.next_id\<close>, no
  two rows of the issue table have the same project and id, and the next creation is
  never refused by \<open>unique_together\<close>. Ids are not unique across projects: a reachable
  state has two issues of different projects with the same id.
\<close>

theorem issue_id_unique_in_project:
  "(\<forall>d. reachable d \<longrightarrow> distinct (project_ids (issues d))) \<and>
   (\<forall>d new. reachable d \<longrightarrow> (\<exists>d'. Issue_create d new = Inr d')) \<and>
   (\<exists>d. reachable d \<and>
      (\<exists>i \<in> set (issues d). \<exists>j \<in> set (issues d).
         issue_project i \<noteq> issue_project j \<and> issue_id i = issue_id j))"
proof (intro conjI allI impI)
  fix d assume "reachable d"
  then show "distinct (project_ids (issues d))"
    using reachable_inv by blast
next
  fix d new assume "reachable d"
  then show "\<exists>d'. Issue_create d new = Inr d'"
    using reachable_inv create_keeps by blast
next
  have "\<exists>i \<in> set (issues one_each). \<exists>j \<in> set (issues one_each).
         issue_project i \<noteq> issue_project j \<and> issue_id i = issue_id j"
    by (simp add: one_each_def empty_db_def new_issue_def)
  then show "\<exists>d. reachable d \<and>
      (\<exists>i \<in> set (issues d). \<exists>j \<in> set (issues d).
         issue_project i \<noteq> issue_project j \<and> issue_id i = issue_id j)"
    using reachable_one_each by blast
qed

theorem issue_id_unique_in_project_witness:
  "reachable one_each \<and> distinct (project_ids (issues one_each)) \<and>
   project_ids (issues one_each) = [(1, 1), (2, 1)] \<and>
   (\<exists>d'. Issue_create one_each (new_issue 1) = Inr d')"
  using issue_id_unique_in_project reachable_one_each
  by (simp add: project_ids_def one_each_def empty_db_def new_issue_def)

text \<open>
  C1. For an authenticated user with a read state on the issue,
  \<open>get_unread_event_nb\<close> returns the number of events of the issue dated strictly after
  \<open>lastread\<close>, and \<open>have_unread_message\<close> returns whether that number is positive.
  For an authenticated user with no read state on the issue, \<open>get_unread_event_nb\<close>
  returns the number of all events of the issue and \<open>have_unread_message\<close> returns
  true.
\<close>

theorem unread_tracking:
  assumes "is_authenticated u"
  shows "(\<forall>rs. filter (\<lambda>r. readstate_issue r = primarykey self \<and> User (readstate_user r) = u)
                 (readstates d) = [rs] \<longrightarrow>
            Issue_get_unread_event_nb d self u =
              Inr (int (length (filter (\<lambda>e. event_issue e = primarykey self \<and> lastread rs < event_date e)
                                  (events d)))) \<and>
            Issue_have_unread_message d self u =
              Inr (0 < length (filter (\<lambda>e. event_issue e = primarykey self \<and> lastread rs < event_date e)
                                  (events d)))) \<and>
         ((\<forall>r \<in> set (readstates d). \<not> (readstate_issue r = primarykey self \<and> User (readstate_user r) = u)) \<longrightarrow>
            Issue_get_unread_event_nb d self u =
              Inr (int (length (filter (\<lambda>e. event_issue e = primarykey self) (events d)))) \<and>
            Issue_have_unread_message d self u = Inr True)"
proof (intro conjI allI impI)
  fix rs
  assume one: "filter (\<lambda>r. readstate_issue r = primarykey self \<and> User (readstate_user r) = u)
                 (readstates d) = [rs]"
  have g: "readstates_get d self u = Inr rs"
    using one by (simp add: readstates_get_def Issue_readstates_def conj_commute)
  show "Issue_get_unread_event_nb d self u =
      Inr (int (length (filter (\<lambda>e. event_issue e = primarykey self \<and> lastread rs < event_date e)
                          (events d))))"
    using assms g by (simp add: Issue_get_unread_event_nb_def Issue_events_def conj_commute)
  show "Issue_have_unread_message d self u =
      Inr (0 < length (filter (\<lambda>e. event_issue e = primarykey self \<and> lastread rs < event_date e)
                          (events d)))"
    using assms g by (simp add: Issue_have_unread_message_def Issue_events_def conj_commute)
next
  assume none: "\<forall>r \<in> set (readstates d).
      \<not> (readstate_issue r = primarykey self \<and> User (readstate_user r) = u)"
  have g: "readstates_get d self u = Inl ObjectDoesNotExist"
    using none by (auto simp: readstates_get_def Issue_readstates_def filter_empty_conv)
  show "Issue_get_unread_event_nb d self u =
      Inr (int (length (filter (\<lambda>e. event_issue e = primarykey self) (events d))))"
    using assms g by (simp add: Issue_get_unread_event_nb_def Issue_events_def)
  show "Issue_have_unread_message d self u = Inr True"
    using assms g by (simp add: Issue_have_unread_message_def)
qed

theorem unread_tracking_witness:
  "is_authenticated (User 7) \<and> is_authenticated (User 8) \<and>
   Issue_get_unread_event_nb read_db issue_one (User 7) = Inr 1 \<and>
   Issue_have_unread_message read_db issue_one (User 7) = Inr True \<and>
   Issue_get_unread_event_nb read_db issue_one (User 8) = Inr 2 \<and>
   Issue_have_unread_message read_db issue_one (User 8) = Inr True"
proof -
  have a: "is_authenticated (User 7)" and b: "is_authenticated (User 8)" by simp_all
  have one: "filter (\<lambda>r. readstate_issue r = primarykey issue_one \<and> User (readstate_user r) = User 7)
       (readstates read_db) = [\<lparr>readstate_pk = 1, readstate_issue = 1, readstate_user = 7, lastread = 15\<rparr>]"
    by (simp add: read_db_def empty_db_def issue_one_def new_issue_def)
  have none: "\<forall>r \<in> set (readstates read_db).
      \<not> (readstate_issue r = primarykey issue_one \<and> User (readstate_user r) = User 8)"
    by (simp add: read_db_def empty_db_def issue_one_def new_issue_def)
  show ?thesis
    using unread_tracking [OF a, where d = read_db and self = issue_one]
      unread_tracking [OF b, where d = read_db and self = issue_one]
      one none
    by (simp add: read_db_def empty_db_def issue_one_def new_issue_def new_event_def)
qed

text \<open>
  C10. For a user who is not authenticated, \<open>Project.get_unread_issues_nb\<close> and
  \<open>Issue.get_unread_event_nb\<close> return 0, \<open>Issue.have_unread_message\<close> returns
  false, and \<open>Issue.mark_as_read\<close> returns the current time and leaves the database,
  so every read state, as it was.
\<close>

theorem unauthenticated_noop:
  assumes "\<not> is_authenticated u"
  shows "Project_get_unread_issues_nb d p u = Inr 0 \<and>
         Issue_get_unread_event_nb d self u = Inr 0 \<and>
         Issue_have_unread_message d self u = Inr False \<and>
         Issue_mark_as_read now d self u = Inr (now, d)"
proof -
  from assms have "u = AnonymousUser" by (cases u) simp_all
  then show ?thesis
    by (simp add: Project_get_unread_issues_nb_def Issue_get_unread_event_nb_def
        Issue_have_unread_message_def)
qed

theorem unauthenticated_noop_witness:
  "\<not> is_authenticated AnonymousUser \<and>
   Project_get_unread_issues_nb read_db 1 AnonymousUser = Inr 0 \<and>
   Issue_get_unread_event_nb read_db issue_one AnonymousUser = Inr 0 \<and>
   Issue_have_unread_message read_db issue_one AnonymousUser = Inr False \<and>
   Issue_mark_as_read 99 read_db issue_one AnonymousUser = Inr (99, read_db)"
  using unauthenticated_noop [where u = AnonymousUser and d = read_db and p = 1 and self = issue_one
      and now = 99] by simp

section \<open>Claims about the description and the event log\<close>

lemma describe_events:
  "filter (\<lambda>e. event_code e = DESCRIBE) (Issue_events d self) =
   filter (\<lambda>e. event_issue e = primarykey self \<and> event_code e = DESCRIBE) (events d)"
  by (simp add: Issue_events_def conj_commute)

lemma getdescevent_None:
  "Issue_getdescevent d self = None \<longleftrightarrow>
   (\<forall>e \<in> set (events d). \<not> (event_issue e = primarykey self \<and> event_code e = DESCRIBE))"
  by (auto simp: Issue_getdescevent_def describe_events Let_def qs_first_None filter_empty_conv)

lemma getdescevent_Some:
  assumes "Issue_getdescevent d self = Some desc"
  shows "desc \<in> set (events d)" and "event_issue desc = primarykey self"
    and "event_code desc = DESCRIBE"
    and "\<forall>e \<in> set (events d). event_issue e = primarykey self \<and> event_code e = DESCRIBE \<longrightarrow>
           event_pk desc \<le> event_pk e"
proof -
  let ?D = "filter (\<lambda>e. event_issue e = primarykey self \<and> event_code e = DESCRIBE) (events d)"
  from assms have f: "qs_first event_pk ?D = Some desc"
    by (simp add: Issue_getdescevent_def describe_events Let_def split: if_splits)
  from qs_first_Some [OF f] show "desc \<in> set (events d)" and "event_issue desc = primarykey self"
    and "event_code desc = DESCRIBE"
    and "\<forall>e \<in> set (events d). event_issue e = primarykey self \<and> event_code e = DESCRIBE \<longrightarrow>
           event_pk desc \<le> event_pk e"
    by auto
qed

lemma getdescevent_least:
  assumes "r \<in> set (events d)" "event_issue r = primarykey self" "event_code r = DESCRIBE"
    and "\<forall>e \<in> set (events d). event_issue e = primarykey self \<and> event_code e = DESCRIBE \<and>
           event_pk e \<le> event_pk r \<longrightarrow> e = r"
  shows "Issue_getdescevent d self = Some r"
proof -
  have "Issue_getdescevent d self \<noteq> None"
    using assms(1-3) by (auto simp: getdescevent_None)
  then obtain x where x: "Issue_getdescevent d self = Some x" by auto
  from getdescevent_Some [OF x] assms show ?thesis
    using x by auto
qed

lemma setdesc_first:
  assumes none: "\<forall>e \<in> set (events d). \<not> (event_issue e = primarykey self \<and> event_code e = DESCRIBE)"
  shows "Issue_setdesc now d self v = Event_insert now d (primarykey self) (issue_author self) DESCRIBE [] v"
  using none getdescevent_None [of d self] by (simp add: Issue_setdesc_def)

lemma setdesc_again:
  assumes "Issue_getdescevent d self = Some desc"
  shows "events (Issue_setdesc now d self v) =
     map (\<lambda>x. if event_pk x = event_pk desc then desc\<lparr>additionnal_section := v\<rparr> else x) (events d)"
  using assms getdescevent_Some(1) [OF assms]
  by (auto simp: Issue_setdesc_def save_row_def)

lemma getdescevent_setdesc_again:
  assumes g: "Issue_getdescevent d self = Some desc"
  shows "Issue_getdescevent (Issue_setdesc now d self v) self = Some (desc\<lparr>additionnal_section := v\<rparr>)"
proof (rule getdescevent_least)
  let ?r = "desc\<lparr>additionnal_section := v\<rparr>"
  let ?d' = "Issue_setdesc now d self v"
  note ev = setdesc_again [OF g, of now v]
  note old = getdescevent_Some [OF g]
  show "?r \<in> set (events ?d')"
    unfolding ev using old(1) by (auto simp: image_iff intro!: bexI [of _ desc])
  show "event_issue ?r = primarykey self" using old(2) by simp
  show "event_code ?r = DESCRIBE" using old(3) by simp
  show "\<forall>e \<in> set (events ?d'). event_issue e = primarykey self \<and> event_code e = DESCRIBE \<and>
           event_pk e \<le> event_pk ?r \<longrightarrow> e = ?r"
  proof (intro ballI impI)
    fix e assume e: "e \<in> set (events ?d')"
      and p: "event_issue e = primarykey self \<and> event_code e = DESCRIBE \<and> event_pk e \<le> event_pk ?r"
    from e obtain y where y: "y \<in> set (events d)"
      and ey: "e = (if event_pk y = event_pk desc then ?r else y)"
      unfolding ev by auto
    show "e = ?r"
    proof (cases "event_pk y = event_pk desc")
      case True then show ?thesis using ey by simp
    next
      case False
      then have "e = y" using ey by simp
      then have "event_pk desc \<le> event_pk y" "event_pk y \<le> event_pk desc"
        using old(4) y p by auto
      then show ?thesis using False by simp
    qed
  qed
qed

lemma getdescevent_setdesc_first:
  assumes none: "\<forall>e \<in> set (events d). \<not> (event_issue e = primarykey self \<and> event_code e = DESCRIBE)"
  shows "\<exists>e. events (Issue_setdesc now d self v) = events d @ [e] \<and>
           Issue_getdescevent (Issue_setdesc now d self v) self = Some e \<and>
           event_issue e = primarykey self \<and> event_code e = DESCRIBE \<and> additionnal_section e = v \<and>
           event_author e = issue_author self \<and> event_date e = now \<and>
           filter (\<lambda>x. event_issue x = primarykey self \<and> event_code x = DESCRIBE)
             (events (Issue_setdesc now d self v)) = [e]"
proof -
  let ?e = "\<lparr>event_pk = fresh_pk event_pk (events d), event_issue = primarykey self,
             event_date = now, event_author = issue_author self, event_code = DESCRIBE,
             event_args = [], additionnal_section = v\<rparr>"
  let ?d' = "Issue_setdesc now d self v"
  have ev: "events ?d' = events d @ [?e]"
    by (simp add: setdesc_first [OF none] Event_insert_def)
  have f: "filter (\<lambda>x. event_issue x = primarykey self \<and> event_code x = DESCRIBE) (events ?d') = [?e]"
    unfolding ev using none by (auto simp: filter_empty_conv)
  have "Issue_getdescevent ?d' self = Some ?e"
    by (rule getdescevent_least) (use none in \<open>auto simp: ev\<close>)
  with ev f show ?thesis by simp
qed

text \<open>
  C3. The description of an issue is its \<open>DESCRIBE\<close> event. For an issue with no
  such event, reading the description gives \<open>None\<close>, and writing it appends one event,
  of code \<open>DESCRIBE\<close>, with the written text as body, the only \<open>DESCRIBE\<close> event
  of the issue afterwards. For an issue that has one, writing keeps the number of
  events: the row of the event \<open>getdescevent\<close> returns gets the written body, every
  other row stays, and \<open>getdescevent\<close> returns the updated event. In both cases
  reading after writing gives the text written.
\<close>

theorem description_single_event:
  "((\<forall>e \<in> set (events d). \<not> (event_issue e = primarykey self \<and> event_code e = DESCRIBE)) \<longrightarrow>
      Issue_getdesc d self = None \<and>
      (\<exists>e. events (Issue_setdesc now d self v) = events d @ [e] \<and>
           event_issue e = primarykey self \<and> event_code e = DESCRIBE \<and>
           additionnal_section e = v \<and>
           filter (\<lambda>x. event_issue x = primarykey self \<and> event_code x = DESCRIBE)
             (events (Issue_setdesc now d self v)) = [e])) \<and>
   ((\<exists>e \<in> set (events d). event_issue e = primarykey self \<and> event_code e = DESCRIBE) \<longrightarrow>
      (\<exists>desc \<in> set (events d).
         Issue_getdescevent d self = Some desc \<and> event_code desc = DESCRIBE \<and>
         length (events (Issue_setdesc now d self v)) = length (events d) \<and>
         (\<forall>k < length (events d).
            events (Issue_setdesc now d self v) ! k =
              (if event_pk (events d ! k) = event_pk desc
               then desc\<lparr>additionnal_section := v\<rparr> else events d ! k)) \<and>
         Issue_getdescevent (Issue_setdesc now d self v) self =
           Some (desc\<lparr>additionnal_section := v\<rparr>))) \<and>
   Issue_getdesc (Issue_setdesc now d self v) self = Some v"
proof (intro conjI impI)
  assume none: "\<forall>e \<in> set (events d). \<not> (event_issue e = primarykey self \<and> event_code e = DESCRIBE)"
  then show "Issue_getdesc d self = None"
    using getdescevent_None [of d self] by (simp add: Issue_getdesc_def)
  from getdescevent_setdesc_first [OF none, of now v]
  show "\<exists>e. events (Issue_setdesc now d self v) = events d @ [e] \<and>
           event_issue e = primarykey self \<and> event_code e = DESCRIBE \<and>
           additionnal_section e = v \<and>
           filter (\<lambda>x. event_issue x = primarykey self \<and> event_code x = DESCRIBE)
             (events (Issue_setdesc now d self v)) = [e]"
    by blast
next
  assume "\<exists>e \<in> set (events d). event_issue e = primarykey self \<and> event_code e = DESCRIBE"
  then have "Issue_getdescevent d self \<noteq> None"
    by (simp add: getdescevent_None)
  then obtain desc where g: "Issue_getdescevent d self = Some desc" by auto
  note old = getdescevent_Some [OF g]
  note ev = setdesc_again [OF g, of now v]
  have "length (events (Issue_setdesc now d self v)) = length (events d)"
    by (simp add: ev)
  moreover have "\<forall>k < length (events d).
            events (Issue_setdesc now d self v) ! k =
              (if event_pk (events d ! k) = event_pk desc
               then desc\<lparr>additionnal_section := v\<rparr> else events d ! k)"
    by (simp add: ev)
  ultimately show "\<exists>desc \<in> set (events d).
         Issue_getdescevent d self = Some desc \<and> event_code desc = DESCRIBE \<and>
         length (events (Issue_setdesc now d self v)) = length (events d) \<and>
         (\<forall>k < length (events d).
            events (Issue_setdesc now d self v) ! k =
              (if event_pk (events d ! k) = event_pk desc
               then desc\<lparr>additionnal_section := v\<rparr> else events d ! k)) \<and>
         Issue_getdescevent (Issue_setdesc now d self v) self =
           Some (desc\<lparr>additionnal_section := v\<rparr>)"
    using g old(1,3) getdescevent_setdesc_again [OF g, of now v] by blast
next
  show "Issue_getdesc (Issue_setdesc now d self v) self = Some v"
  proof (cases "Issue_getdescevent d self")
    case None
    then have "\<forall>e \<in> set (events d). \<not> (event_issue e = primarykey self \<and> event_code e = DESCRIBE)"
      by (simp add: getdescevent_None)
    from getdescevent_setdesc_first [OF this, of now v] show ?thesis
      by (auto simp: Issue_getdesc_def)
  next
    case (Some desc)
    from getdescevent_setdesc_again [OF Some, of now v] show ?thesis
      by (simp add: Issue_getdesc_def)
  qed
qed

theorem description_single_event_witness:
  "filter (\<lambda>e. event_issue e = primarykey issue_one \<and> event_code e = DESCRIBE)
     (events comment_db) = [] \<and>
   Issue_getdesc comment_db issue_one = None \<and>
   length (events (Issue_setdesc 50 comment_db issue_one ''new'')) = 2 \<and>
   Issue_getdesc (Issue_setdesc 50 comment_db issue_one ''new'') issue_one = Some ''new'' \<and>
   (\<exists>e \<in> set (events read_db).
      event_issue e = primarykey issue_one \<and> event_code e = DESCRIBE) \<and>
   length (events (Issue_setdesc 50 read_db issue_one ''new'')) = 3 \<and>
   Issue_getdesc (Issue_setdesc 50 read_db issue_one ''new'') issue_one = Some ''new''"
proof -
  have none: "\<forall>e \<in> set (events comment_db).
      \<not> (event_issue e = primarykey issue_one \<and> event_code e = DESCRIBE)"
    by (simp add: comment_db_def empty_db_def issue_one_def new_issue_def new_event_def)
  have some: "\<exists>e \<in> set (events read_db).
      event_issue e = primarykey issue_one \<and> event_code e = DESCRIBE"
    by (simp add: read_db_def empty_db_def issue_one_def new_issue_def new_event_def)
  note a = description_single_event [where d = comment_db and self = issue_one and now = 50
      and v = "''new''"]
  note b = description_single_event [where d = read_db and self = issue_one and now = 50
      and v = "''new''"]
  have a1: "Issue_getdesc comment_db issue_one = None"
    using a none by blast
  from a none obtain e
    where "events (Issue_setdesc 50 comment_db issue_one ''new'') = events comment_db @ [e]"
    by blast
  then have a2: "length (events (Issue_setdesc 50 comment_db issue_one ''new'')) = 2"
    by (simp add: comment_db_def empty_db_def)
  have a3: "Issue_getdesc (Issue_setdesc 50 comment_db issue_one ''new'') issue_one = Some ''new''"
    using a by blast
  from b some
  have "length (events (Issue_setdesc 50 read_db issue_one ''new'')) = length (events read_db)"
    by blast
  then have b1: "length (events (Issue_setdesc 50 read_db issue_one ''new'')) = 3"
    by (simp add: read_db_def empty_db_def)
  have b2: "Issue_getdesc (Issue_setdesc 50 read_db issue_one ''new'') issue_one = Some ''new''"
    using b by blast
  have none': "filter (\<lambda>e. event_issue e = primarykey issue_one \<and> event_code e = DESCRIBE)
     (events comment_db) = []"
    using none by (simp add: filter_empty_conv)
  from none' a1 a2 a3 some b1 b2 show ?thesis by blast
qed

lemma events_Event_insert:
  "\<exists>e. events (Event_insert now d iss a c args body) = events d @ [e] \<and> event_code e = c"
  by (simp add: Event_insert_def)

lemma events_Issue_save: "events (Issue_save d s) = events d"
  by (simp add: Issue_save_def)

lemma events_labels_add: "events (labels_add d s l) = events d"
  by (simp add: labels_add_def)

lemma events_labels_remove: "events (labels_remove d s l) = events d"
  by (simp add: labels_remove_def)

lemma events_add_label:
  "\<exists>es. events (Issue_add_label now d self a l c) = events d @ es"
proof (cases "filter (\<lambda>x. label_pk x = label_pk l) (Issue_labels d self) \<noteq> []")
  case True
  then show ?thesis by (simp add: Issue_add_label_def)
next
  case False
  then show ?thesis
    by (simp add: Issue_add_label_def Let_def Event_insert_def events_Issue_save events_labels_add)
qed

lemma events_remove_label:
  "\<exists>es. events (Issue_remove_label now d self a l c) = events d @ es"
  by (simp add: Issue_remove_label_def Let_def Event_insert_def events_Issue_save
      events_labels_remove)

lemma events_add_milestone:
  assumes "Issue_add_milestone now d self a m c = Inr (self', d')"
  shows "\<exists>es. events d' = events d @ es"
  using assms
  by (auto simp: Issue_add_milestone_def Let_def Event_insert_def Issue_save_def
      split: sum.splits option.splits if_splits)

lemma events_remove_milestone:
  "\<exists>es. events (snd (Issue_remove_milestone now d self a m c)) = events d @ es"
  by (simp add: Issue_remove_milestone_def Let_def Event_insert_def events_Issue_save)

lemma events_mark_as_read:
  assumes "Issue_mark_as_read now d self u = Inr (t, d')"
  shows "events d' = events d"
  using assms by (cases u) (auto split: sum.splits error.splits)

lemma events_deldesc:
  "events (Issue_deldesc d self) =
     (case Issue_getdescevent d self of
        None \<Rightarrow> events d
      | Some desc \<Rightarrow> filter (\<lambda>x. event_pk x \<noteq> event_pk desc) (events d))"
  by (simp add: Issue_deldesc_def delete_row_def split: option.splits)

text \<open>
  C4, as amended. The label and milestone mutators and \<open>mark_as_read\<close> leave every
  stored event as it is and in place: the new event table is the old one followed by
  the events they add. The description is the exception. On an issue without
  \<open>DESCRIBE\<close> event, \<open>setdesc\<close> appends one event and \<open>deldesc\<close> does
  nothing. On an issue with one, \<open>setdesc\<close> replaces the body of the row of that event
  and keeps its other columns and all other rows, and \<open>deldesc\<close> deletes the row of
  that event and no other.
\<close>

theorem event_log_changes:
  "(\<exists>es. events (Issue_add_label now d self a l c) = events d @ es) \<and>
   (\<exists>es. events (Issue_remove_label now d self a l c) = events d @ es) \<and>
   (\<forall>self' d'. Issue_add_milestone now d self a m c = Inr (self', d') \<longrightarrow>
      (\<exists>es. events d' = events d @ es)) \<and>
   (\<exists>es. events (snd (Issue_remove_milestone now d self a m c)) = events d @ es) \<and>
   (\<forall>t d'. Issue_mark_as_read now d self u = Inr (t, d') \<longrightarrow> events d' = events d) \<and>
   (case Issue_getdescevent d self of
      None \<Rightarrow>
        (\<exists>e. events (Issue_setdesc now d self v) = events d @ [e]) \<and>
        events (Issue_deldesc d self) = events d
    | Some desc \<Rightarrow>
        desc \<in> set (events d) \<and> event_issue desc = primarykey self \<and>
        event_code desc = DESCRIBE \<and>
        events (Issue_setdesc now d self v) =
          map (\<lambda>x. if event_pk x = event_pk desc then desc\<lparr>additionnal_section := v\<rparr> else x)
            (events d) \<and>
        events (Issue_deldesc d self) = filter (\<lambda>x. event_pk x \<noteq> event_pk desc) (events d))"
proof (intro conjI allI impI)
  show "\<exists>es. events (Issue_add_label now d self a l c) = events d @ es"
    by (rule events_add_label)
  show "\<exists>es. events (Issue_remove_label now d self a l c) = events d @ es"
    by (rule events_remove_label)
  show "\<exists>es. events (snd (Issue_remove_milestone now d self a m c)) = events d @ es"
    by (rule events_remove_milestone)
  show "case Issue_getdescevent d self of
      None \<Rightarrow>
        (\<exists>e. events (Issue_setdesc now d self v) = events d @ [e]) \<and>
        events (Issue_deldesc d self) = events d
    | Some desc \<Rightarrow>
        desc \<in> set (events d) \<and> event_issue desc = primarykey self \<and>
        event_code desc = DESCRIBE \<and>
        events (Issue_setdesc now d self v) =
          map (\<lambda>x. if event_pk x = event_pk desc then desc\<lparr>additionnal_section := v\<rparr> else x)
            (events d) \<and>
        events (Issue_deldesc d self) = filter (\<lambda>x. event_pk x \<noteq> event_pk desc) (events d)"
  proof (cases "Issue_getdescevent d self")
    case None
    then show ?thesis
      by (simp add: Issue_setdesc_def Event_insert_def events_deldesc)
  next
    case (Some desc)
    then show ?thesis
      using getdescevent_Some [OF Some] setdesc_again [OF Some, of now v]
      by (simp add: events_deldesc)
  qed
next
  fix self' d' assume "Issue_add_milestone now d self a m c = Inr (self', d')"
  then show "\<exists>es. events d' = events d @ es" by (rule events_add_milestone)
next
  fix t d' assume "Issue_mark_as_read now d self u = Inr (t, d')"
  then show "events d' = events d" by (rule events_mark_as_read)
qed

theorem event_log_changes_witness:
  "(\<exists>self' d'. Issue_add_milestone 50 read_db issue_one 7 milestone_one True = Inr (self', d') \<and>
      (\<exists>es. events d' = events read_db @ es)) \<and>
   (\<exists>t d'. Issue_mark_as_read 50 read_db issue_one (User 7) = Inr (t, d') \<and>
      events d' = events read_db) \<and>
   (\<exists>es. events (Issue_add_label 50 read_db issue_one 7 label_one True) = events read_db @ es)"
proof -
  note t = event_log_changes [where now = 50 and d = read_db and self = issue_one and a = 7
      and m = milestone_one and c = True and u = "User 7" and l = label_one]
  have "\<exists>self' d'. Issue_add_milestone 50 read_db issue_one 7 milestone_one True = Inr (self', d')"
    by (simp add: Issue_add_milestone_def Issue_milestone_row_def Let_def issue_one_def
        new_issue_def)
  moreover have "\<exists>t d'. Issue_mark_as_read 50 read_db issue_one (User 7) = Inr (t, d')"
    by (simp add: readstates_get_def Issue_readstates_def read_db_def empty_db_def
        issue_one_def new_issue_def)
  ultimately show ?thesis using t by blast
qed

text \<open>
  C4 as stated fails: \<open>deldesc\<close> deletes the stored \<open>DESCRIBE\<close> event of issue 1,
  and \<open>setdesc\<close> changes its body from \<open>text\<close> to \<open>new\<close>.
\<close>

theorem event_log_append_only_counterexample:
  "events read_db =
     [new_event 1 1 10 DESCRIBE ''text'', new_event 2 1 20 COMMENT ''reply'',
      new_event 3 2 30 DESCRIBE ''other''] \<and>
   events (Issue_deldesc read_db issue_one) =
     [new_event 2 1 20 COMMENT ''reply'', new_event 3 2 30 DESCRIBE ''other''] \<and>
   events (Issue_setdesc 50 read_db issue_one ''new'') =
     [new_event 1 1 10 DESCRIBE ''new'', new_event 2 1 20 COMMENT ''reply'',
      new_event 3 2 30 DESCRIBE ''other'']"
  by (simp add: Issue_deldesc_def Issue_setdesc_def Issue_getdescevent_def Issue_events_def
      qs_first_def order_by_pk_def save_row_def delete_row_def
      read_db_def empty_db_def issue_one_def new_issue_def new_event_def)

section \<open>Claims about labels\<close>

lemma Issue_labels_Event_insert:
  "Issue_labels (Event_insert now d iss a c args body) self = Issue_labels d self"
  by (simp add: Issue_labels_def Event_insert_def)

lemma Issue_labels_Issue_save: "Issue_labels (Issue_save d s) self = Issue_labels d self"
  by (simp add: Issue_labels_def Issue_save_def)

lemma add_label_attached:
  assumes "attached d self l"
  shows "Issue_add_label now d self a l c = d"
  using assms by (auto simp: Issue_add_label_def attached_def filter_empty_conv)

lemma add_label_fresh:
  assumes "\<not> attached d self l"
  shows "Issue_add_label now d self a l c =
     Event_insert now (if c then Issue_save (labels_add d self l) self else labels_add d self l)
       (primarykey self) a ADD_LABEL [(''label'', JInt (int (label_pk l)))] []"
  using assms by (auto simp: Issue_add_label_def attached_def filter_empty_conv Let_def)

lemma attached_labels_add:
  assumes "\<exists>x \<in> set (labels d). label_pk x = label_pk l"
  shows "attached (labels_add d self l) self l"
  using assms by (auto simp: attached_def Issue_labels_def labels_add_def)

lemma Issue_labels_labels_add:
  "set (Issue_labels (labels_add d self l) self) =
   set (Issue_labels d self) \<union> {x \<in> set (labels d). label_pk x = label_pk l}"
  by (auto simp: Issue_labels_def labels_add_def)

text \<open>
  C8. \<open>add_label\<close> with a label the issue already carries changes nothing: not the
  labels of the issue, not the event log. With a label the issue does not carry, it
  adds the label rows of that key to the labels of the issue and appends exactly one
  \<open>ADD_LABEL\<close> event. \<open>remove_label\<close> has no guard: whether or not the issue
  carried the label, it appends exactly one \<open>DEL_LABEL\<close> event, and the issue does
  not carry the label afterwards.
\<close>

theorem add_label_idempotent_remove_label_unguarded:
  "(attached d self l \<longrightarrow> Issue_add_label now d self a l c = d) \<and>
   (\<not> attached d self l \<longrightarrow>
      set (Issue_labels (Issue_add_label now d self a l c) self) =
        set (Issue_labels d self) \<union> {x \<in> set (labels d). label_pk x = label_pk l} \<and>
      (l \<in> set (labels d) \<longrightarrow> attached (Issue_add_label now d self a l c) self l) \<and>
      (\<exists>e. events (Issue_add_label now d self a l c) = events d @ [e] \<and>
           event_issue e = primarykey self \<and> event_code e = ADD_LABEL \<and>
           event_author e = a \<and> event_date e = now \<and>
           event_args e = [(''label'', JInt (int (label_pk l)))])) \<and>
   (\<exists>e. events (Issue_remove_label now d self a l c) = events d @ [e] \<and>
        event_issue e = primarykey self \<and> event_code e = DEL_LABEL \<and>
        event_author e = a \<and> event_date e = now \<and>
        event_args e = [(''label'', JInt (int (label_pk l)))]) \<and>
   \<not> attached (Issue_remove_label now d self a l c) self l"
proof (intro conjI impI)
  assume "attached d self l"
  then show "Issue_add_label now d self a l c = d" by (rule add_label_attached)
next
  assume n: "\<not> attached d self l"
  have eq: "set (Issue_labels (Issue_add_label now d self a l c) self) =
        set (Issue_labels d self) \<union> {x \<in> set (labels d). label_pk x = label_pk l}"
    by (simp add: add_label_fresh [OF n] Issue_labels_Event_insert Issue_labels_Issue_save
        Issue_labels_labels_add)
  then show "set (Issue_labels (Issue_add_label now d self a l c) self) =
        set (Issue_labels d self) \<union> {x \<in> set (labels d). label_pk x = label_pk l}" .
  show "attached (Issue_add_label now d self a l c) self l" if "l \<in> set (labels d)"
    using that eq by (auto simp: attached_def)
  show "\<exists>e. events (Issue_add_label now d self a l c) = events d @ [e] \<and>
           event_issue e = primarykey self \<and> event_code e = ADD_LABEL \<and>
           event_author e = a \<and> event_date e = now \<and>
           event_args e = [(''label'', JInt (int (label_pk l)))]"
    by (simp add: add_label_fresh [OF n] Event_insert_def Issue_save_def labels_add_def)
next
  show "\<exists>e. events (Issue_remove_label now d self a l c) = events d @ [e] \<and>
        event_issue e = primarykey self \<and> event_code e = DEL_LABEL \<and>
        event_author e = a \<and> event_date e = now \<and>
        event_args e = [(''label'', JInt (int (label_pk l)))]"
    by (simp add: Issue_remove_label_def Let_def Event_insert_def Issue_save_def labels_remove_def)
  have "Issue_labels (Issue_remove_label now d self a l c) self =
      Issue_labels (labels_remove d self l) self"
    by (simp add: Issue_remove_label_def Let_def Issue_labels_Event_insert
        Issue_labels_Issue_save)
  then show "\<not> attached (Issue_remove_label now d self a l c) self l"
    by (auto simp: attached_def Issue_labels_def labels_remove_def)
qed

theorem add_label_idempotent_remove_label_unguarded_witness:
  "attached label_db issue_one label_one \<and>
   Issue_add_label 50 label_db issue_one 7 label_one True = label_db \<and>
   \<not> attached label_db issue_one label_two \<and>
   set (Issue_labels (Issue_add_label 50 label_db issue_one 7 label_two True) issue_one) =
     {label_one, label_two} \<and>
   label_two \<in> set (labels label_db) \<and>
   attached (Issue_add_label 50 label_db issue_one 7 label_two True) issue_one label_two \<and>
   length (events (Issue_add_label 50 label_db issue_one 7 label_two True)) = 4 \<and>
   length (events (Issue_remove_label 50 label_db issue_one 7 label_two True)) = 4"
proof -
  note defs = label_db_def read_db_def empty_db_def issue_one_def new_issue_def label_one_def
    label_two_def
  have a: "attached label_db issue_one label_one"
    by (simp add: attached_def Issue_labels_def defs)
  have n: "\<not> attached label_db issue_one label_two"
    by (simp add: attached_def Issue_labels_def defs)
  note t1 = add_label_idempotent_remove_label_unguarded [where d = label_db and self = issue_one
      and l = label_one and now = 50 and a = 7 and c = True]
  note t2 = add_label_idempotent_remove_label_unguarded [where d = label_db and self = issue_one
      and l = label_two and now = 50 and a = 7 and c = True]
  have 1: "Issue_add_label 50 label_db issue_one 7 label_one True = label_db"
    using t1 a by blast
  have "set (Issue_labels (Issue_add_label 50 label_db issue_one 7 label_two True) issue_one) =
     set (Issue_labels label_db issue_one) \<union>
       {x \<in> set (labels label_db). label_pk x = label_pk label_two}"
    using t2 n by blast
  also have "\<dots> = {label_one, label_two}"
    by (auto simp: Issue_labels_def defs)
  finally have 2: "set (Issue_labels (Issue_add_label 50 label_db issue_one 7 label_two True)
      issue_one) = {label_one, label_two}" .
  from t2 n obtain e where
    "events (Issue_add_label 50 label_db issue_one 7 label_two True) = events label_db @ [e]"
    by blast
  then have 3: "length (events (Issue_add_label 50 label_db issue_one 7 label_two True)) = 4"
    by (simp add: defs)
  from t2 obtain e' where
    "events (Issue_remove_label 50 label_db issue_one 7 label_two True) = events label_db @ [e']"
    by blast
  then have 4: "length (events (Issue_remove_label 50 label_db issue_one 7 label_two True)) = 4"
    by (simp add: defs)
  have s: "label_two \<in> set (labels label_db)"
    by (simp add: defs)
  have 5: "attached (Issue_add_label 50 label_db issue_one 7 label_two True) issue_one label_two"
    using t2 n s by blast
  from a 1 n 2 3 4 s 5 show ?thesis by blast
qed

section \<open>Claims about soft deletion\<close>

lemma save_row_stored:
  assumes "x \<in> set rows" and "pkf r = pkf x"
  shows "save_row pkf r rows = map (\<lambda>y. if pkf y = pkf x then r else y) rows"
  using assms by (auto simp: save_row_def)

text \<open>
  C6. A label whose \<open>deleted\<close> flag is set is not in \<open>Project.labels\<close>, and a
  milestone whose flag is set is not in \<open>Project.milestones\<close>. Setting the flag of a
  stored label and saving it hides every row of its key from \<open>Project.labels\<close>,
  while the row stays in the label table with its other columns, the other rows stay,
  and the event table (so each \<open>ADD_LABEL\<close> and \<open>DEL_LABEL\<close> event that names
  the label), the labels attached to issues and the issue table are what they were. The
  same holds for a milestone, its table and the events that name it.
\<close>

theorem soft_deletion_hides_records:
  "(\<forall>x \<in> set (labels d). label_deleted x \<longrightarrow> x \<notin> set (Project_labels d p)) \<and>
   (\<forall>x \<in> set (milestones d). milestone_deleted x \<longrightarrow> x \<notin> set (Project_milestones d p)) \<and>
   (l \<in> set (labels d) \<longrightarrow>
      (\<forall>x \<in> set (Project_labels (Label_save d (l\<lparr>label_deleted := True\<rparr>)) p).
         label_pk x \<noteq> label_pk l) \<and>
      l\<lparr>label_deleted := True\<rparr> \<in> set (labels (Label_save d (l\<lparr>label_deleted := True\<rparr>))) \<and>
      (\<forall>x \<in> set (labels d). label_pk x \<noteq> label_pk l \<longrightarrow>
         x \<in> set (labels (Label_save d (l\<lparr>label_deleted := True\<rparr>)))) \<and>
      events (Label_save d (l\<lparr>label_deleted := True\<rparr>)) = events d \<and>
      issue_labels (Label_save d (l\<lparr>label_deleted := True\<rparr>)) = issue_labels d \<and>
      issues (Label_save d (l\<lparr>label_deleted := True\<rparr>)) = issues d) \<and>
   (m \<in> set (milestones d) \<longrightarrow>
      (\<forall>x \<in> set (Project_milestones (Milestone_save d (m\<lparr>milestone_deleted := True\<rparr>)) p).
         milestone_pk x \<noteq> milestone_pk m) \<and>
      m\<lparr>milestone_deleted := True\<rparr>
        \<in> set (milestones (Milestone_save d (m\<lparr>milestone_deleted := True\<rparr>))) \<and>
      (\<forall>x \<in> set (milestones d). milestone_pk x \<noteq> milestone_pk m \<longrightarrow>
         x \<in> set (milestones (Milestone_save d (m\<lparr>milestone_deleted := True\<rparr>)))) \<and>
      events (Milestone_save d (m\<lparr>milestone_deleted := True\<rparr>)) = events d \<and>
      issues (Milestone_save d (m\<lparr>milestone_deleted := True\<rparr>)) = issues d)"
proof (intro conjI impI)
  show "\<forall>x \<in> set (labels d). label_deleted x \<longrightarrow> x \<notin> set (Project_labels d p)"
    by (simp add: Project_labels_def)
  show "\<forall>x \<in> set (milestones d). milestone_deleted x \<longrightarrow> x \<notin> set (Project_milestones d p)"
    by (simp add: Project_milestones_def)
next
  assume l: "l \<in> set (labels d)"
  let ?r = "l\<lparr>label_deleted := True\<rparr>"
  have tab: "labels (Label_save d ?r) = map (\<lambda>y. if label_pk y = label_pk l then ?r else y) (labels d)"
    using save_row_stored [OF l, of label_pk ?r] by (simp add: Label_save_def)
  show "\<forall>x \<in> set (Project_labels (Label_save d ?r) p). label_pk x \<noteq> label_pk l"
    by (auto simp: Project_labels_def tab)
  show "?r \<in> set (labels (Label_save d ?r))"
    unfolding tab using l by (auto simp: image_iff intro!: bexI [of _ l])
  show "\<forall>x \<in> set (labels d). label_pk x \<noteq> label_pk l \<longrightarrow> x \<in> set (labels (Label_save d ?r))"
    unfolding tab by (auto simp: image_iff)
  show "events (Label_save d ?r) = events d" by (simp add: Label_save_def)
  show "issue_labels (Label_save d ?r) = issue_labels d" by (simp add: Label_save_def)
  show "issues (Label_save d ?r) = issues d" by (simp add: Label_save_def)
next
  assume m: "m \<in> set (milestones d)"
  let ?r = "m\<lparr>milestone_deleted := True\<rparr>"
  have tab: "milestones (Milestone_save d ?r) =
      map (\<lambda>y. if milestone_pk y = milestone_pk m then ?r else y) (milestones d)"
    using save_row_stored [OF m, of milestone_pk ?r] by (simp add: Milestone_save_def)
  show "\<forall>x \<in> set (Project_milestones (Milestone_save d ?r) p). milestone_pk x \<noteq> milestone_pk m"
    by (auto simp: Project_milestones_def tab)
  show "?r \<in> set (milestones (Milestone_save d ?r))"
    unfolding tab using m by (auto simp: image_iff intro!: bexI [of _ m])
  show "\<forall>x \<in> set (milestones d). milestone_pk x \<noteq> milestone_pk m \<longrightarrow>
      x \<in> set (milestones (Milestone_save d ?r))"
    unfolding tab by (auto simp: image_iff)
  show "events (Milestone_save d ?r) = events d" by (simp add: Milestone_save_def)
  show "issues (Milestone_save d ?r) = issues d" by (simp add: Milestone_save_def)
qed

theorem soft_deletion_hides_records_witness:
  "label_one \<in> set (labels soft_db) \<and> milestone_one \<in> set (milestones soft_db) \<and>
   label_one \<in> set (Project_labels soft_db 1) \<and>
   milestone_one \<in> set (Project_milestones soft_db 1) \<and>
   label_one\<lparr>label_deleted := True\<rparr>
     \<notin> set (Project_labels (Label_save soft_db (label_one\<lparr>label_deleted := True\<rparr>)) 1) \<and>
   label_one\<lparr>label_deleted := True\<rparr>
     \<in> set (labels (Label_save soft_db (label_one\<lparr>label_deleted := True\<rparr>))) \<and>
   events (Label_save soft_db (label_one\<lparr>label_deleted := True\<rparr>)) = events soft_db \<and>
   milestone_one\<lparr>milestone_deleted := True\<rparr>
     \<notin> set (Project_milestones
              (Milestone_save soft_db (milestone_one\<lparr>milestone_deleted := True\<rparr>)) 1) \<and>
   milestone_one\<lparr>milestone_deleted := True\<rparr>
     \<in> set (milestones (Milestone_save soft_db (milestone_one\<lparr>milestone_deleted := True\<rparr>))) \<and>
   events (Milestone_save soft_db (milestone_one\<lparr>milestone_deleted := True\<rparr>)) = events soft_db"
proof -
  note defs = soft_db_def label_db_def read_db_def empty_db_def label_one_def label_two_def
    milestone_one_def
  have l: "label_one \<in> set (labels soft_db)" by (simp add: defs)
  have m: "milestone_one \<in> set (milestones soft_db)" by (simp add: defs)
  have l1: "label_one \<in> set (Project_labels soft_db 1)"
    by (simp add: Project_labels_def defs)
  have m1: "milestone_one \<in> set (Project_milestones soft_db 1)"
    by (simp add: Project_milestones_def defs)
  note t = soft_deletion_hides_records [where d = soft_db and p = 1 and l = label_one
      and m = milestone_one]
  note t' = soft_deletion_hides_records
    [where d = "Label_save soft_db (label_one\<lparr>label_deleted := True\<rparr>)" and p = 1]
  have "label_one\<lparr>label_deleted := True\<rparr>
     \<in> set (labels (Label_save soft_db (label_one\<lparr>label_deleted := True\<rparr>)))"
    using t l by blast
  moreover have "label_deleted (label_one\<lparr>label_deleted := True\<rparr>)" by simp
  ultimately have l2: "label_one\<lparr>label_deleted := True\<rparr>
     \<notin> set (Project_labels (Label_save soft_db (label_one\<lparr>label_deleted := True\<rparr>)) 1)"
    using t' by blast
  have "\<forall>x \<in> set (Project_milestones
        (Milestone_save soft_db (milestone_one\<lparr>milestone_deleted := True\<rparr>)) 1).
      milestone_pk x \<noteq> milestone_pk milestone_one"
    using t m by blast
  then have m2: "milestone_one\<lparr>milestone_deleted := True\<rparr>
     \<notin> set (Project_milestones
              (Milestone_save soft_db (milestone_one\<lparr>milestone_deleted := True\<rparr>)) 1)"
    by auto
  from t l m l1 m1 l2 m2 show ?thesis by blast
qed

section \<open>Claims about the edit policy\<close>




section \<open>Claims about the progress of a milestone\<close>

lemma rounded_quotient_range:
  assumes rnd: "binary64_rounding rnd" and c: "0 \<le> c" "c \<le> t" and t: "0 < t"
  shows "0 \<le> py_int (rnd (real_of_int (100 * c) / real_of_int t))"
    and "py_int (rnd (real_of_int (100 * c) / real_of_int t)) \<le> 100"
proof -
  let ?q = "real_of_int (100 * c) / real_of_int t"
  from rnd have mono: "\<And>x y. x \<le> y \<Longrightarrow> rnd x \<le> rnd y"
    and exact: "\<And>n::int. 0 \<le> n \<Longrightarrow> n \<le> 100 \<Longrightarrow> rnd (real_of_int n) = real_of_int n"
    by (auto simp: binary64_rounding_def)
  have q0: "0 \<le> ?q" using c t by simp
  have "real_of_int (100 * c) \<le> 100 * real_of_int t" using c by simp
  then have q100: "?q \<le> 100" using t by (simp add: field_simps)
  have "rnd 0 \<le> rnd ?q" using q0 by (rule mono)
  moreover have "rnd 0 = 0" using exact [of 0] by simp
  ultimately have r0: "0 \<le> rnd ?q" by simp
  have "rnd ?q \<le> rnd 100" using q100 by (rule mono)
  moreover have "rnd 100 = 100" using exact [of 100] by simp
  ultimately have r100: "rnd ?q \<le> 100" by simp
  show "0 \<le> py_int (rnd ?q)" using r0 by (simp add: py_int_def)
  have "\<lfloor>rnd ?q\<rfloor> \<le> \<lfloor>100::real\<rfloor>" using r100 by (rule floor_mono)
  then show "py_int (rnd ?q) \<le> 100" using r0 by (simp add: py_int_def)
qed

lemma rounded_quotient_floor:
  assumes rnd: "binary64_rounding rnd" and c: "0 \<le> c" "c \<le> t" and t: "0 < t" "t < 2 ^ 31"
  shows "py_int (rnd (real_of_int (100 * c) / real_of_int t)) = (100 * c) div t"
proof -
  let ?q = "real_of_int (100 * c) / real_of_int t"
  let ?k = "(100 * c) div t"
  let ?r = "(100 * c) mod t"
  from rnd have mono: "\<And>x y. x \<le> y \<Longrightarrow> rnd x \<le> rnd y"
    and exact: "\<And>n::int. 0 \<le> n \<Longrightarrow> n \<le> 100 \<Longrightarrow> rnd (real_of_int n) = real_of_int n"
    and err: "\<And>x. 1 / 2 ^ 32 \<le> x \<Longrightarrow> x \<le> 128 \<Longrightarrow> \<bar>rnd x - x\<bar> \<le> x / 2 ^ 53"
    by (auto simp: binary64_rounding_def)
  have k0: "0 \<le> ?k" using c t by (simp add: pos_imp_zdiv_nonneg_iff)
  have "100 * c \<le> 100 * t" using c by simp
  then have "?k \<le> (100 * t) div t" by (rule zdiv_mono1) (use t in simp)
  then have k100: "?k \<le> 100" using t by simp
  have r: "0 \<le> ?r" "?r < t" using t by simp_all
  have split: "100 * c = ?k * t + ?r" by simp
  have tpos: "0 < real_of_int t" using t by simp
  have "real_of_int (100 * c) = real_of_int ?k * real_of_int t + real_of_int ?r"
    by (metis split of_int_add of_int_mult)
  then have q: "?q = real_of_int ?k + real_of_int ?r / real_of_int t"
    using tpos by (simp add: field_simps)
  show ?thesis
  proof (cases "?r = 0")
    case True
    then have "?q = real_of_int ?k" using q by simp
    then have "rnd ?q = real_of_int ?k" using exact [OF k0 k100] by simp
    then show ?thesis using k0 by (simp add: py_int_def)
  next
    case False
    then have r1: "1 \<le> ?r" using r by simp
    have lower: "real_of_int ?k \<le> ?q"
      using q r tpos by simp
    have "rnd (real_of_int ?k) \<le> rnd ?q" using lower by (rule mono)
    then have low: "real_of_int ?k \<le> rnd ?q" using exact [OF k0 k100] by simp
    have "real_of_int ?r \<le> real_of_int t - 1" using r by linarith
    then have "real_of_int ?r / real_of_int t \<le> (real_of_int t - 1) / real_of_int t"
      using tpos by (simp add: divide_right_mono)
    also have "\<dots> = 1 - 1 / real_of_int t"
      using tpos by (simp add: field_simps)
    finally have upper: "?q \<le> real_of_int ?k + 1 - 1 / real_of_int t"
      using q by simp
    have "1 / real_of_int t \<le> real_of_int ?r / real_of_int t"
      using r1 tpos by (simp add: divide_right_mono)
    then have qlow: "1 / real_of_int t \<le> ?q"
      using q k0 by linarith
    have tsmall: "real_of_int t < 2 ^ 31"
      using t(2) by (metis of_int_less_iff of_int_numeral of_int_power)
    then have "1 / 2 ^ 31 < 1 / real_of_int t"
      using tpos by (simp add: field_simps)
    then have q1: "1 / 2 ^ 32 \<le> ?q"
      using qlow by simp
    have "real_of_int (100 * c) \<le> 100 * real_of_int t" using c by simp
    then have q100: "?q \<le> 100" using tpos by (simp add: field_simps)
    then have q2: "?q \<le> 128" by simp
    have "\<bar>rnd ?q - ?q\<bar> \<le> ?q / 2 ^ 53" using q1 q2 by (rule err)
    then have "rnd ?q \<le> ?q + ?q / 2 ^ 53" by linarith
    also have "\<dots> \<le> ?q + 100 / 2 ^ 53" using q100 by (simp add: divide_right_mono)
    also have "\<dots> < ?q + 1 / real_of_int t"
    proof -
      have "100 * real_of_int t < 2 ^ 53" using tsmall by simp
      then have "100 / 2 ^ 53 < 1 / real_of_int t"
        using tpos by (simp add: field_simps)
      then show ?thesis by simp
    qed
    also have "\<dots> \<le> real_of_int ?k + 1" using upper by simp
    finally have up: "rnd ?q < real_of_int ?k + 1" .
    have "\<lfloor>rnd ?q\<rfloor> = ?k"
      using low up by (simp add: floor_unique)
    moreover have "0 \<le> rnd ?q" using low k0 by linarith
    ultimately show ?thesis by (simp add: py_int_def)
  qed
qed

lemma closed_le_total:
  "0 \<le> Milestone_closed_issues d m" "Milestone_closed_issues d m \<le> Milestone_total_issues d m"
  "Milestone_total_issues d m \<le> int (length (issues d))"
proof -
  show "0 \<le> Milestone_closed_issues d m"
    by (simp add: Milestone_closed_issues_def)
  show "Milestone_closed_issues d m \<le> Milestone_total_issues d m"
    by (simp add: Milestone_closed_issues_def Milestone_total_issues_def)
  show "Milestone_total_issues d m \<le> int (length (issues d))"
    by (simp add: Milestone_total_issues_def Milestone_issues_def)
qed

text \<open>
  C9. \<open>Milestone.progress\<close> is total: for every milestone it returns an integer, from
  0 to 100, and never raises. When no row of the issue table is on the milestone it
  returns 0 without dividing; the division it skips would raise
  \<open>ZeroDivisionError\<close>. When some row is on the milestone it returns the integer part
  of 100 times the number of rows on the milestone that are closed, divided by the number
  of rows on the milestone. The last part is for an issue table of fewer than 2^31 rows,
  which is every issue table: \<open>Issue.primarykey\<close> is an \<open>AutoField\<close>, a 32-bit
  key. Below that bound the rounding of the quotient to a binary64 never reaches the next
  integer.
\<close>

theorem progress_bounded:
  assumes "binary64_rounding rnd"
  shows "(\<exists>n. Milestone_progress rnd d m = Inr n \<and> 0 \<le> n \<and> n \<le> 100) \<and>
    (\<forall>a. py_truediv rnd a 0 = Inl ZeroDivisionError) \<and>
    ((\<forall>i \<in> set (issues d). issue_milestone i \<noteq> Some (milestone_pk m)) \<longrightarrow>
       Milestone_progress rnd d m = Inr 0) \<and>
    ((\<exists>i \<in> set (issues d). issue_milestone i = Some (milestone_pk m)) \<and>
     length (issues d) < 2 ^ 31 \<longrightarrow>
       Milestone_progress rnd d m =
         Inr ((100 * int (length (filter (\<lambda>i. issue_milestone i = Some (milestone_pk m) \<and>
                                            issue_closed i) (issues d))))
              div int (length (filter (\<lambda>i. issue_milestone i = Some (milestone_pk m))
                                 (issues d)))) \<and>
       Milestone_progress rnd d m =
         Inr \<lfloor>100 * real (length (filter (\<lambda>i. issue_milestone i = Some (milestone_pk m) \<and>
                                            issue_closed i) (issues d)))
              / real (length (filter (\<lambda>i. issue_milestone i = Some (milestone_pk m))
                                (issues d)))\<rfloor>)"
proof -
  let ?on = "\<lambda>i. issue_milestone i = Some (milestone_pk m)"
  let ?c = "Milestone_closed_issues d m" and ?t = "Milestone_total_issues d m"
  have c_raw: "?c = int (length (filter (\<lambda>i. ?on i \<and> issue_closed i) (issues d)))"
    by (simp add: Milestone_closed_issues_def Milestone_issues_def conj_commute)
  have t_raw: "?t = int (length (filter ?on (issues d)))"
    by (simp add: Milestone_total_issues_def Milestone_issues_def)
  have zero: "Milestone_progress rnd d m = Inr 0" if "?t = 0"
    using that by (simp add: Milestone_progress_def)
  have pos: "Milestone_progress rnd d m =
      Inr (py_int (rnd (real_of_int (100 * ?c) / real_of_int ?t)))" if "?t \<noteq> 0"
    using that by (simp add: Milestone_progress_def Let_def py_truediv_def)
  have total: "\<exists>n. Milestone_progress rnd d m = Inr n \<and> 0 \<le> n \<and> n \<le> 100"
  proof (cases "?t = 0")
    case True
    then show ?thesis using zero by simp
  next
    case False
    then have t: "0 < ?t" using closed_le_total [of d m] by linarith
    show ?thesis
      using pos [OF False] rounded_quotient_range [OF assms closed_le_total(1,2) t] by simp
  qed
  have raises: "\<forall>a. py_truediv rnd a 0 = Inl ZeroDivisionError"
    by (simp add: py_truediv_def)
  have none: "Milestone_progress rnd d m = Inr 0"
    if "\<forall>i \<in> set (issues d). issue_milestone i \<noteq> Some (milestone_pk m)"
  proof -
    from that have "filter ?on (issues d) = []"
      by (simp add: filter_empty_conv)
    then have "?t = 0" by (simp add: t_raw)
    then show ?thesis by (rule zero)
  qed
  have some: "Milestone_progress rnd d m =
        Inr ((100 * int (length (filter (\<lambda>i. ?on i \<and> issue_closed i) (issues d))))
             div int (length (filter ?on (issues d)))) \<and>
      Milestone_progress rnd d m =
        Inr \<lfloor>100 * real (length (filter (\<lambda>i. ?on i \<and> issue_closed i) (issues d)))
             / real (length (filter ?on (issues d)))\<rfloor>"
    if h: "(\<exists>i \<in> set (issues d). ?on i) \<and> length (issues d) < 2 ^ 31"
  proof -
    from h have "filter ?on (issues d) \<noteq> []"
      by (simp add: filter_empty_conv)
    then have ne: "?t \<noteq> 0" by (simp add: t_raw)
    then have t: "0 < ?t" using closed_le_total [of d m] by linarith
    have "int (length (issues d)) < int (2 ^ 31)"
      using h by (simp only: of_nat_less_iff)
    then have "int (length (issues d)) < 2 ^ 31" by simp
    then have "?t < 2 ^ 31" using closed_le_total(3) [of d m] by linarith
    then have "py_int (rnd (real_of_int (100 * ?c) / real_of_int ?t)) = (100 * ?c) div ?t"
      using rounded_quotient_floor [OF assms closed_le_total(1,2) t] by simp
    then have e: "Milestone_progress rnd d m = Inr ((100 * ?c) div ?t)"
      using pos [OF ne] by simp
    have "\<lfloor>real_of_int (100 * ?c) / real_of_int ?t\<rfloor> = (100 * ?c) div ?t"
      by (rule floor_divide_of_int_eq)
    then have fl: "\<lfloor>100 * real (length (filter (\<lambda>i. ?on i \<and> issue_closed i) (issues d)))
             / real (length (filter ?on (issues d)))\<rfloor> = (100 * ?c) div ?t"
      unfolding c_raw t_raw by simp
    show ?thesis
      using e fl unfolding c_raw t_raw by simp
  qed
  from total raises none some show ?thesis by blast
qed

theorem progress_bounded_witness:
  "binary64_rounding (\<lambda>x. x) \<and> length (issues progress_db) < 2 ^ 31 \<and>
   Milestone_progress (\<lambda>x. x) progress_db milestone_one = Inr 33 \<and>
   Milestone_progress (\<lambda>x. x) progress_db milestone_two = Inr 100 \<and>
   Milestone_progress (\<lambda>x. x) progress_db milestone_three = Inr 0 \<and>
   py_truediv (\<lambda>x. x) 100 0 = Inl ZeroDivisionError"
proof -
  note defs = progress_db_def empty_db_def new_issue_def milestone_one_def milestone_two_def
    milestone_three_def
  have r: "binary64_rounding (\<lambda>x. x)"
    by (simp add: binary64_rounding_def)
  have n: "length (issues progress_db) < 2 ^ 31"
    by (simp add: defs)
  note t1 = progress_bounded [OF r, where d = progress_db and m = milestone_one]
  note t2 = progress_bounded [OF r, where d = progress_db and m = milestone_two]
  note t3 = progress_bounded [OF r, where d = progress_db and m = milestone_three]
  have s1: "\<exists>i \<in> set (issues progress_db). issue_milestone i = Some (milestone_pk milestone_one)"
    by (simp add: defs)
  have s2: "\<exists>i \<in> set (issues progress_db). issue_milestone i = Some (milestone_pk milestone_two)"
    by (simp add: defs)
  have s3: "\<forall>i \<in> set (issues progress_db).
      issue_milestone i \<noteq> Some (milestone_pk milestone_three)"
    by (simp add: defs)
  have "Milestone_progress (\<lambda>x. x) progress_db milestone_one =
      Inr ((100 * int (length (filter (\<lambda>i. issue_milestone i = Some (milestone_pk milestone_one) \<and>
                                         issue_closed i) (issues progress_db))))
           div int (length (filter (\<lambda>i. issue_milestone i = Some (milestone_pk milestone_one))
                              (issues progress_db))))"
    using t1 s1 n by blast
  then have p1: "Milestone_progress (\<lambda>x. x) progress_db milestone_one = Inr 33"
    by (simp add: defs)
  have "Milestone_progress (\<lambda>x. x) progress_db milestone_two =
      Inr ((100 * int (length (filter (\<lambda>i. issue_milestone i = Some (milestone_pk milestone_two) \<and>
                                         issue_closed i) (issues progress_db))))
           div int (length (filter (\<lambda>i. issue_milestone i = Some (milestone_pk milestone_two))
                              (issues progress_db))))"
    using t2 s2 n by blast
  then have p2: "Milestone_progress (\<lambda>x. x) progress_db milestone_two = Inr 100"
    by (simp add: defs)
  have p3: "Milestone_progress (\<lambda>x. x) progress_db milestone_three = Inr 0"
    using t3 s3 by blast
  have z: "py_truediv (\<lambda>x. x) 100 0 = Inl ZeroDivisionError"
    using t1 by blast
  from r n p1 p2 p3 z show ?thesis by blast
qed

end
